theory Spec2Isabelle
  imports Main "HOL-Library.AList"
begin

section \<open>Field values and JavaScript objects\<close>

text \<open>
  The form engine of \<^verbatim>\<open>src/src/index.ts\<close> (class \<^verbatim>\<open>Form\<close>) keeps its data in plain
  JavaScript objects used as dictionaries from field names to values. An object is modelled
  as the association list of its own properties in insertion order. The objects are plain
  ones: their prototype is \<^verbatim>\<open>Object.prototype\<close>, whose members a read of a missing key
  finds and whose \<^verbatim>\<open>__proto__\<close> setter a write of that key runs. A field name is any
  string, so both are part of the model. JavaScript lists integer-like keys first; the
  model keeps the insertion order throughout, and no operation of the class reads the
  order of the keys.
\<close>

type_synonym Field = string

text \<open>
  The names of the properties of \<^verbatim>\<open>Object.prototype\<close> (ECMAScript, with its Annex B).
  None of them is enumerable: \<^verbatim>\<open>Object.keys\<close>, \<^verbatim>\<open>Object.values\<close> and \<^verbatim>\<open>for ... in\<close> see
  the own properties only.
\<close>

definition Object_prototype :: "Field list" where
  "Object_prototype =
     [''constructor'', ''__defineGetter__'', ''__defineSetter__'', ''hasOwnProperty'',
      ''__lookupGetter__'', ''__lookupSetter__'', ''isPrototypeOf'', ''propertyIsEnumerable'',
      ''toString'', ''valueOf'', ''__proto__'', ''toLocaleString'']"

text \<open>
  \<^verbatim>\<open>type FieldValue = string | boolean | undefined\<close> is the declared type, and what callers
  pass. At run time \<^verbatim>\<open>values[field]\<close> of a key the object does not own, named like a member
  of \<^verbatim>\<open>Object.prototype\<close>, is that member (a function, or \<^verbatim>\<open>Object.prototype\<close> itself for
  \<^verbatim>\<open>__proto__\<close>): \<open>Inherited\<close> with the name. It is truthy and differs from every
  string, boolean and \<^verbatim>\<open>undefined\<close>.
\<close>

datatype FieldValue = Str string | Bool bool | Undefined | Inherited Field

text \<open>
  The errors container is declared as \<^verbatim>\<open>Record<Field, string>\<close>, but at run time an
  entry can also hold what \<^verbatim>\<open>errs[field]\<close> gives for a key that \<^verbatim>\<open>errs\<close> does not own:
  \<^verbatim>\<open>undefined\<close>, or the member of \<^verbatim>\<open>Object.prototype\<close> of that name.
\<close>

datatype ErrorValue = ErrText string | ErrUndefined | ErrInherited Field

type_synonym 'a Record = "(Field \<times> 'a) list"

type_synonym FormMetaBoolean = "bool Record"

type_synonym FormValidationError = "string Record"

type_synonym FormValuesObject = "FieldValue Record"

type_synonym ErrorsContainer = "ErrorValue Record"

text \<open>\<^verbatim>\<open>Object.keys(o)\<close> and \<^verbatim>\<open>Object.values(o)\<close>.\<close>

definition keys :: "'a Record \<Rightarrow> Field list" where
  "keys object = map fst object"

definition values_of :: "'a Record \<Rightarrow> 'a list" where
  "values_of object = map snd object"

text \<open>
  \<^verbatim>\<open>o[key]\<close> of a values object: the own property; without one, the member of
  \<^verbatim>\<open>Object.prototype\<close> of that name; without one, \<^verbatim>\<open>undefined\<close>.
\<close>

definition get_value :: "FormValuesObject \<Rightarrow> Field \<Rightarrow> FieldValue" where
  "get_value object key =
     (case map_of object key of
        Some v \<Rightarrow> v
      | None \<Rightarrow> if key \<in> set Object_prototype then Inherited key else Undefined)"

text \<open>\<^verbatim>\<open>errs[field]\<close> of a validator's error map, read in the same way.\<close>

definition get_error :: "FormValidationError \<Rightarrow> Field \<Rightarrow> ErrorValue" where
  "get_error errs key =
     (case map_of errs key of
        Some m \<Rightarrow> ErrText m
      | None \<Rightarrow> if key \<in> set Object_prototype then ErrInherited key else ErrUndefined)"

text \<open>The truthiness of a field value, as \<^verbatim>\<open>if (value)\<close> tests it.\<close>

fun truthy :: "FieldValue \<Rightarrow> bool" where
  "truthy (Str s) = (s \<noteq> [])"
| "truthy (Bool b) = b"
| "truthy Undefined = False"
| "truthy (Inherited member) = True"

text \<open>
  \<^verbatim>\<open>update(object, path, value)\<close>: \<^verbatim>\<open>record[path] = value\<close> on the content of a writable
  store. The model passes the content and returns the new content. The assignment
  overwrites the entry of an own key in place and appends a new key, as
  \<^const>\<open>AList.update\<close> does, with one exception: at the path \<^verbatim>\<open>__proto__\<close>, when the object
  does not own that key, it runs the setter of \<^verbatim>\<open>Object.prototype\<close>, which adds no
  property. (The setter ignores a string, a boolean and \<^verbatim>\<open>undefined\<close>, and given
  \<^verbatim>\<open>Object.prototype\<close>, the member read at that key, it leaves the prototype as it is; the
  class writes nothing else there.) An object owns \<^verbatim>\<open>__proto__\<close> when it comes from
  \<^verbatim>\<open>JSON.parse\<close> or from a computed key \<^verbatim>\<open>{ [field]: value }\<close>.
\<close>

definition update :: "'a Record \<Rightarrow> Field \<Rightarrow> 'a \<Rightarrow> 'a Record" where
  "update object path v =
     (if path = ''__proto__'' \<and> path \<notin> set (keys object) then object
      else AList.update path v object)"

text \<open>
  \<^verbatim>\<open>assign(object, value)\<close>: a fresh object with the keys of \<^verbatim>\<open>object\<close>, every one set
  to \<^verbatim>\<open>value\<close> (the \<^verbatim>\<open>for (const key in object)\<close> loop, as a fold over the keys).
\<close>

definition assign :: "'a Record \<Rightarrow> 'b \<Rightarrow> 'b Record" where
  "assign object v = fold (\<lambda>key copy. update copy key v) (keys object) []"

text \<open>
  \<^verbatim>\<open>clone(object)\<close> is \<^verbatim>\<open>JSON.parse(JSON.stringify(object))\<close>, applied to the initial
  values, which are of the declared type. Strings and booleans come back as they were,
  under their keys (\<^verbatim>\<open>JSON.parse\<close> defines own properties, \<^verbatim>\<open>__proto__\<close> included), and
  \<^verbatim>\<open>JSON.stringify\<close> leaves out every property whose value is \<^verbatim>\<open>undefined\<close>.
\<close>

definition clone :: "FormValuesObject \<Rightarrow> FormValuesObject" where
  "clone object = filter (\<lambda>(key, v). v \<noteq> Undefined) object"

section \<open>Validators, the submit callback and the configuration\<close>

text \<open>
  What a validator or the callback throws. A \<^verbatim>\<open>yup\<close> \<^verbatim>\<open>ValidationError\<close> has a
  \<^verbatim>\<open>message\<close> and the list \<^verbatim>\<open>inner\<close> of its violations, each with a \<^verbatim>\<open>path\<close> and a
  \<^verbatim>\<open>message\<close>; any other error has a message and no \<^verbatim>\<open>inner\<close>.
\<close>

datatype Thrown = Thrown (message: string) (inner: "(Field \<times> string) list option")

text \<open>
  The schema, by the two calls the class makes: \<^verbatim>\<open>validate(values, {abortEarly: false})\<close>
  and \<^verbatim>\<open>validateAt(field, values)\<close>. Each promise resolves (\<open>None\<close>) or rejects with
  what was thrown.
\<close>

record Schema =
  validate :: "FormValuesObject \<Rightarrow> Thrown option"
  validateAt :: "Field \<Rightarrow> FormValuesObject \<Rightarrow> Thrown option"

text \<open>
  The custom validator \<^verbatim>\<open>(form) => FormValidationError | undefined\<close>: it throws
  (\<open>Inl\<close>), returns \<^verbatim>\<open>undefined\<close> (\<open>Inr None\<close>) or returns an error map.
\<close>

type_synonym ValidateFn = "FormValuesObject \<Rightarrow> Thrown + FormValidationError option"

text \<open>
  The callback \<^verbatim>\<open>onSubmit(values, form, errors)\<close> is handed the submitted values and the
  two writable stores \<^verbatim>\<open>form\<close> and \<^verbatim>\<open>errors\<close>. It is modelled by what it may do with
  them: given the contents of the two stores it returns their new contents, and whether
  it threw.
\<close>

type_synonym OnSubmit =
  "FormValuesObject \<Rightarrow> FormValuesObject \<times> ErrorsContainer
     \<Rightarrow> Thrown option \<times> FormValuesObject \<times> ErrorsContainer"

text \<open>\<^verbatim>\<open>Partial<FormConfig>\<close>: every property may be absent.\<close>

record FormConfig =
  config_initialValues :: "FormValuesObject option"
  config_validationSchema :: "Schema option"
  config_validate :: "ValidateFn option"
  config_onSubmit :: "OnSubmit option"

section \<open>The class Form\<close>

text \<open>
  The private fields of the class and the contents of its five writable stores.
  \<open>console\<close> is the list of the warnings written with \<^verbatim>\<open>console.warn\<close>, oldest first.
\<close>

record Form =
  initialValues :: FormValuesObject
  onSubmit :: "OnSubmit option"
  validationSchema :: "Schema option"
  validateFn :: "ValidateFn option"
  form :: FormValuesObject
  errors :: ErrorsContainer
  touched :: FormMetaBoolean
  isSubmitting :: bool
  isValidating :: bool
  console :: "string list"

definition NO_ERROR :: string where
  "NO_ERROR = ''''"

definition IS_TOUCHED :: bool where
  "IS_TOUCHED = True"

text \<open>
  \<^verbatim>\<open>isInitialValuesValid(initialValues = {})\<close>: an absent argument is the empty object.
  With no key, \<^verbatim>\<open>JSON.stringify\<close> of the object is \<^verbatim>\<open>{}\<close>, which fixes the warning's text.
  The result is the returned boolean and the console after the call.
\<close>

definition isInitialValuesValid ::
  "FormValuesObject option \<Rightarrow> string list \<Rightarrow> bool \<times> string list" where
  "isInitialValuesValid given out =
     (let initial = (case given of Some object \<Rightarrow> object | None \<Rightarrow> []) in
      if length (keys initial) = 0
      then (False,
        out @ [''initialValues need to be a non empty object or array, provided {}''])
      else (True, out))"

text \<open>The three functions of \<^verbatim>\<open>getInitial\<close>.\<close>

definition getInitial_values :: "Form \<Rightarrow> FormValuesObject" where
  "getInitial_values s = clone (initialValues s)"

definition getInitial_errors :: "Form \<Rightarrow> ErrorsContainer" where
  "getInitial_errors s = assign (initialValues s) (ErrText NO_ERROR)"

definition getInitial_touched :: "Form \<Rightarrow> FormMetaBoolean" where
  "getInitial_touched s = assign (initialValues s) (\<not> IS_TOUCHED)"

text \<open>The constructor.\<close>

definition Form_new :: "FormConfig \<Rightarrow> Form" where
  "Form_new cfg =
     (let out = snd (isInitialValuesValid (config_initialValues cfg) []);
          s = \<lparr> initialValues =
                  (case config_initialValues cfg of Some object \<Rightarrow> object | None \<Rightarrow> []),
                onSubmit = config_onSubmit cfg,
                validationSchema = config_validationSchema cfg,
                validateFn = config_validate cfg,
                form = [], errors = [], touched = [],
                isSubmitting = False, isValidating = False, console = out \<rparr>
      in s\<lparr> form := getInitial_values s,
            errors := getInitial_errors s,
            touched := getInitial_touched s \<rparr>)"

subsection \<open>The derived stores\<close>

definition isValid :: "Form \<Rightarrow> bool" where
  "isValid s =
     (let allTouched = list_all (\<lambda>field. field = IS_TOUCHED) (values_of (touched s));
          noErrors = list_all (\<lambda>field. field = ErrText NO_ERROR) (values_of (errors s))
      in allTouched \<and> noErrors)"

definition modified :: "Form \<Rightarrow> FormMetaBoolean" where
  "modified s =
     fold (\<lambda>key object.
             if get_value (form s) key \<noteq> get_value (initialValues s) key
             then update object key True else object)
          (keys (form s)) (assign (form s) False)"

definition isModified :: "Form \<Rightarrow> bool" where
  "isModified s = list_ex (\<lambda>field. field = True) (values_of (modified s))"

subsection \<open>The operations\<close>

text \<open>
  An operation returns the state it leaves behind and, for the asynchronous ones, whether
  its promise resolved (\<open>None\<close>) or rejected with what was thrown. One operation runs to
  its end before the next starts.
\<close>

definition handleReset :: "Form \<Rightarrow> Form" where
  "handleReset s =
     (let s1 = s\<lparr> form := getInitial_values s \<rparr>;
          s2 = s1\<lparr> errors := getInitial_errors s1 \<rparr>
      in s2\<lparr> touched := getInitial_touched s2 \<rparr>)"

definition updateField :: "Field \<Rightarrow> FieldValue \<Rightarrow> Form \<Rightarrow> Form" where
  "updateField field v s =
     (if truthy v then s\<lparr> form := update (form s) field v \<rparr> else s)"

definition updateTouched :: "Field \<Rightarrow> bool \<Rightarrow> Form \<Rightarrow> Form" where
  "updateTouched field v s = s\<lparr> touched := update (touched s) field v \<rparr>"

definition updateInitialValues :: "FormValuesObject \<Rightarrow> Form \<Rightarrow> Form" where
  "updateInitialValues newValues s =
     (case isInitialValuesValid (Some newValues) (console s) of
        (ok, out) \<Rightarrow>
          if \<not> ok then s\<lparr> console := out \<rparr>
          else handleReset (s\<lparr> initialValues := newValues, console := out \<rparr>))"

definition clearErrorsAndSubmit :: "FormValuesObject \<Rightarrow> Form \<Rightarrow> Thrown option \<times> Form" where
  "clearErrorsAndSubmit vals s =
     (case onSubmit s of
        Some callback \<Rightarrow>
          (let s1 = s\<lparr> errors := assign vals (ErrText '''') \<rparr> in
           case callback vals (form s1, errors s1) of
             (Some thrown, form', errors') \<Rightarrow>
               (Some thrown, s1\<lparr> form := form', errors := errors' \<rparr>)
           | (None, form', errors') \<Rightarrow>
               (None, s1\<lparr> form := form', errors := errors', isSubmitting := False \<rparr>))
      | None \<Rightarrow> (None, s\<lparr> isSubmitting := False \<rparr>))"

text \<open>
  \<^verbatim>\<open>handleSubmit\<close>. The optional event and its \<^verbatim>\<open>preventDefault\<close> do not touch the
  form. \<^verbatim>\<open>values\<close> is the content of the \<^verbatim>\<open>form\<close> store. In the branch of the custom
  function nothing is caught; in the branch of the schema the \<^verbatim>\<open>try\<close> block holds the
  schema's \<^verbatim>\<open>validate\<close> and \<^verbatim>\<open>clearErrorsAndSubmit\<close>, and the \<^verbatim>\<open>catch\<close> takes whatever
  either of them throws.
\<close>

definition handleSubmit :: "Form \<Rightarrow> Thrown option \<times> Form" where
  "handleSubmit s0 =
     (let s = s0\<lparr> isSubmitting := True \<rparr>; vals = form s in
      case validateFn s of
        Some validateFn' \<Rightarrow>
          (let s1 = s\<lparr> isValidating := True \<rparr> in
           case validateFn' vals of
             Inl thrown \<Rightarrow> (Some thrown, s1)
           | Inr error \<Rightarrow>
               (case (case error of
                        None \<Rightarrow> clearErrorsAndSubmit vals s1
                      | Some error' \<Rightarrow>
                          if length (keys error') \<le> 0 then clearErrorsAndSubmit vals s1
                          else (None, s1\<lparr> errors := map (\<lambda>(key, m). (key, ErrText m)) error',
                                         isSubmitting := False \<rparr>)) of
                  (Some thrown, s2) \<Rightarrow> (Some thrown, s2)
                | (None, s2) \<Rightarrow> (None, s2\<lparr> isValidating := False \<rparr>)))
      | None \<Rightarrow>
          (case validationSchema s of
             Some schema \<Rightarrow>
               (let s1 = s\<lparr> isValidating := True \<rparr> in
                case (case validate schema vals of
                        Some yupErrors \<Rightarrow> (Some yupErrors, s1)
                      | None \<Rightarrow> clearErrorsAndSubmit vals s1) of
                  (None, s2) \<Rightarrow> (None, s2\<lparr> isValidating := False \<rparr>)
                | (Some yupErrors, s2) \<Rightarrow>
                    (let s3 = (case inner yupErrors of
                                 Some violations \<Rightarrow>
                                   fold (\<lambda>(path, msg) s'.
                                           s'\<lparr> errors := update (errors s') path (ErrText msg) \<rparr>)
                                        violations s2
                               | None \<Rightarrow> s2)
                     in (None, s3\<lparr> isSubmitting := False, isValidating := False \<rparr>)))
           | None \<Rightarrow> clearErrorsAndSubmit vals s))"

definition validateFieldValue :: "Field \<Rightarrow> FieldValue \<Rightarrow> Form \<Rightarrow> Thrown option \<times> Form" where
  "validateFieldValue field v s0 =
     (let s = updateTouched field True s0 in
      case validationSchema s of
        Some schema \<Rightarrow>
          (let s1 = s\<lparr> isValidating := True \<rparr>;
               s2 = (case validateAt schema field (form s1) of
                       None \<Rightarrow> s1\<lparr> errors := update (errors s1) field (ErrText '''') \<rparr>
                     | Some error \<Rightarrow>
                         s1\<lparr> errors := update (errors s1) field (ErrText (message error)) \<rparr>)
           in (None, s2\<lparr> isValidating := False \<rparr>))
      | None \<Rightarrow>
          (case validateFn s of
             Some validateFn' \<Rightarrow>
               (let s1 = s\<lparr> isValidating := True \<rparr> in
                case validateFn' [(field, v)] of
                  Inl thrown \<Rightarrow> (Some thrown, s1)
                | Inr errs \<Rightarrow>
                    (let s2 = s1\<lparr> errors := update (errors s1) field
                                 (case errs of Some errs' \<Rightarrow> get_error errs' field
                                             | None \<Rightarrow> ErrText '''') \<rparr>
                     in (None, s2\<lparr> isValidating := False \<rparr>)))
           | None \<Rightarrow> (None, s)))"

definition validateField :: "Field \<Rightarrow> Form \<Rightarrow> Thrown option \<times> Form" where
  "validateField field s = validateFieldValue field (get_value (form s) field) s"

definition updateValidateField :: "Field \<Rightarrow> FieldValue \<Rightarrow> Form \<Rightarrow> Thrown option \<times> Form" where
  "updateValidateField field v s = validateFieldValue field v (updateField field v s)"

text \<open>
  The input element of \<^verbatim>\<open>handleChange\<close>, by what the method reads of it: \<^verbatim>\<open>name\<close>,
  \<^verbatim>\<open>id\<close>, \<^verbatim>\<open>getAttribute('type')\<close>, \<^verbatim>\<open>value\<close> and \<^verbatim>\<open>checked\<close>.
\<close>

record HTMLInputElement =
  el_name :: string
  el_id :: string
  el_type :: "string option"
  el_value :: string
  el_checked :: bool

definition isCheckbox :: "HTMLInputElement \<Rightarrow> bool" where
  "isCheckbox element = (el_type element = Some ''checkbox'')"

definition handleChange :: "HTMLInputElement option \<Rightarrow> Form \<Rightarrow> Thrown option \<times> Form" where
  "handleChange target s =
     (case target of
        Some element \<Rightarrow>
          (let field = (if el_name element \<noteq> [] then el_name element else el_id element);
               v = (if isCheckbox element then Bool (el_checked element)
                    else Str (el_value element))
           in updateValidateField field v s)
      | None \<Rightarrow> (None, s))"

section \<open>Runs of operations and reachable states\<close>

text \<open>
  The public surface of an instance: the eight operations, and the \<^verbatim>\<open>set\<close> of the three
  writable stores \<^verbatim>\<open>form\<close>, \<^verbatim>\<open>errors\<close> and \<^verbatim>\<open>touched\<close>, which callers and the tests use
  directly (\<^verbatim>\<open>instance.errors.set({name: 'name is required'})\<close>).
\<close>

datatype Op =
    HandleChange "HTMLInputElement option"
  | HandleReset
  | HandleSubmit
  | ValidateField Field
  | UpdateField Field FieldValue
  | UpdateTouched Field bool
  | UpdateValidateField Field FieldValue
  | UpdateInitialValues FormValuesObject
  | FormSet FormValuesObject
  | ErrorsSet ErrorsContainer
  | TouchedSet FormMetaBoolean

fun run :: "Op \<Rightarrow> Form \<Rightarrow> Thrown option \<times> Form" where
  "run (HandleChange target) s = handleChange target s"
| "run HandleReset s = (None, handleReset s)"
| "run HandleSubmit s = handleSubmit s"
| "run (ValidateField field) s = validateField field s"
| "run (UpdateField field v) s = (None, updateField field v s)"
| "run (UpdateTouched field v) s = (None, updateTouched field v s)"
| "run (UpdateValidateField field v) s = updateValidateField field v s"
| "run (UpdateInitialValues newValues) s = (None, updateInitialValues newValues s)"
| "run (FormSet object) s = (None, s\<lparr> form := object \<rparr>)"
| "run (ErrorsSet object) s = (None, s\<lparr> errors := object \<rparr>)"
| "run (TouchedSet object) s = (None, s\<lparr> touched := object \<rparr>)"

text \<open>A sequence of calls; a rejected promise leaves the instance as it is then.\<close>

definition run_all :: "Op list \<Rightarrow> Form \<Rightarrow> Form" where
  "run_all ops s = fold (\<lambda>op s'. snd (run op s')) ops s"

text \<open>
  What comes from outside is a JavaScript object: a key occurs once in it. This holds of
  the configured initial values, of the objects passed to an operation, and, given
  objects, of every error map the custom validator returns and of what the callback
  leaves in the two stores.
\<close>

definition is_object :: "'a Record \<Rightarrow> bool" where
  "is_object object = distinct (keys object)"

definition wf_validateFn :: "ValidateFn \<Rightarrow> bool" where
  "wf_validateFn validateFn' =
     (\<forall>vals. is_object vals \<longrightarrow>
        (case validateFn' vals of Inr (Some error) \<Rightarrow> is_object error | _ \<Rightarrow> True))"

definition wf_onSubmit :: "OnSubmit \<Rightarrow> bool" where
  "wf_onSubmit callback =
     (\<forall>vals form0 errors0. is_object vals \<and> is_object form0 \<and> is_object errors0 \<longrightarrow>
        (case callback vals (form0, errors0) of
           (thrown, form', errors') \<Rightarrow> is_object form' \<and> is_object errors'))"

definition wf_config :: "FormConfig \<Rightarrow> bool" where
  "wf_config cfg =
     ((case config_initialValues cfg of Some object \<Rightarrow> is_object object | None \<Rightarrow> True) \<and>
      (case config_validate cfg of Some validateFn' \<Rightarrow> wf_validateFn validateFn' | None \<Rightarrow> True) \<and>
      (case config_onSubmit cfg of Some callback \<Rightarrow> wf_onSubmit callback | None \<Rightarrow> True))"

fun wf_Op :: "Op \<Rightarrow> bool" where
  "wf_Op (UpdateInitialValues newValues) = is_object newValues"
| "wf_Op (FormSet object) = is_object object"
| "wf_Op (ErrorsSet object) = is_object object"
| "wf_Op (TouchedSet object) = is_object object"
| "wf_Op _ = True"

inductive reachable :: "Form \<Rightarrow> bool" where
  constructed: "wf_config cfg \<Longrightarrow> reachable (Form_new cfg)"
| called: "reachable s \<Longrightarrow> wf_Op op \<Longrightarrow> reachable (snd (run op s))"

text \<open>The objects an instance holds are objects, and so is what its functions return.\<close>

definition well_formed :: "Form \<Rightarrow> bool" where
  "well_formed s =
     (is_object (initialValues s) \<and> is_object (form s) \<and> is_object (errors s) \<and>
      is_object (touched s) \<and>
      (case validateFn s of Some validateFn' \<Rightarrow> wf_validateFn validateFn' | None \<Rightarrow> True) \<and>
      (case onSubmit s of Some callback \<Rightarrow> wf_onSubmit callback | None \<Rightarrow> True))"

subsection \<open>Writes, for the reset property\<close>

text \<open>
  The writes that \<^verbatim>\<open>handleReset\<close> undoes: \<^verbatim>\<open>updateField\<close>, \<^verbatim>\<open>updateTouched\<close> and a write
  of the errors store.
\<close>

fun is_write :: "Op \<Rightarrow> bool" where
  "is_write (UpdateField field v) = True"
| "is_write (UpdateTouched field v) = True"
| "is_write (ErrorsSet object) = True"
| "is_write _ = False"

subsection \<open>The branches of a submit\<close>

text \<open>
  Whole-form validation passes: the custom function, when there is one, returns
  \<^verbatim>\<open>undefined\<close> or an object with no key; otherwise the schema, when there is one,
  resolves; with neither there is nothing to pass.
\<close>

definition validation_passes :: "Form \<Rightarrow> bool" where
  "validation_passes s =
     (case validateFn s of
        Some validateFn' \<Rightarrow>
          (case validateFn' (form s) of
             Inl thrown \<Rightarrow> False
           | Inr None \<Rightarrow> True
           | Inr (Some error) \<Rightarrow> length (keys error) \<le> 0)
      | None \<Rightarrow>
          (case validationSchema s of
             Some schema \<Rightarrow> validate schema (form s) = None
           | None \<Rightarrow> True))"

subsection \<open>Calls that keep the key sets\<close>











section \<open>Facts about objects\<close>

lemma keys_Nil [simp]: "keys [] = []"
  by (simp add: keys_def)

lemma keys_update:
  "set (keys (update object path v)) =
     (if path = ''__proto__'' \<and> path \<notin> set (keys object) then set (keys object)
      else insert path (set (keys object)))"
  by (auto simp: keys_def update_def AList.dom_update)

lemma keys_update_own:
  "path \<in> set (keys object) \<Longrightarrow> set (keys (update object path v)) = set (keys object)"
  by (auto simp: keys_update)

lemma distinct_update: "distinct (keys object) \<Longrightarrow> distinct (keys (update object path v))"
  by (simp add: keys_def update_def AList.distinct_update)

lemma map_of_update:
  "map_of (update object path v) =
     (if path = ''__proto__'' \<and> path \<notin> set (keys object) then map_of object
      else (map_of object)(path \<mapsto> v))"
  by (auto simp: update_def update_conv')


lemma fold_update_distinct: "distinct (keys acc) \<Longrightarrow> distinct (keys (fold (\<lambda>key copy. update copy key v) ks acc))"
  by (induction ks arbitrary: acc) (auto simp: distinct_update)




lemma assign_distinct: "distinct (keys (assign object v))"
  by (simp add: assign_def fold_update_distinct)




lemma clone_distinct: "distinct (keys object) \<Longrightarrow> distinct (keys (clone object))"
  by (simp add: keys_def clone_def distinct_map_filter)

lemma is_object_update: "is_object object \<Longrightarrow> is_object (update object path v)"
  by (simp add: is_object_def distinct_update)

lemma is_object_assign: "is_object (assign object v)"
  by (simp add: is_object_def assign_distinct)

lemma is_object_clone: "is_object object \<Longrightarrow> is_object (clone object)"
  by (simp add: is_object_def clone_distinct)

lemma is_object_Nil: "is_object []"
  by (simp add: is_object_def)

lemma is_object_errors_of: "is_object error \<Longrightarrow> is_object (map (\<lambda>(key, m). (key, ErrText m)) error)"
  by (simp add: is_object_def keys_def case_prod_beta comp_def)

lemma write_violations:
  "fold (\<lambda>(path, msg) s'. s'\<lparr> errors := update (errors s') path (ErrText msg) \<rparr>) violations s =
   s\<lparr> errors := fold (\<lambda>(path, msg) object. update object path (ErrText msg)) violations (errors s) \<rparr>"
  by (induction violations arbitrary: s) (auto simp: case_prod_beta)

lemma is_object_violations:
  "is_object object \<Longrightarrow>
   is_object (fold (\<lambda>(path, msg) object. update object path (ErrText msg)) violations object)"
  by (induction violations arbitrary: object) (auto simp: is_object_update)

section \<open>The branches of clearErrorsAndSubmit and handleSubmit\<close>

text \<open>
  One equation for every path through \<^verbatim>\<open>clearErrorsAndSubmit\<close> and \<^verbatim>\<open>handleSubmit\<close>, and
  the two case rules that collect them.
\<close>

lemma clearErrorsAndSubmit_no_callback:
  "onSubmit s = None \<Longrightarrow> clearErrorsAndSubmit vals s = (None, s\<lparr> isSubmitting := False \<rparr>)"
  by (simp add: clearErrorsAndSubmit_def)

lemma clearErrorsAndSubmit_callback:
  "onSubmit s = Some callback \<Longrightarrow>
   callback vals (form s, assign vals (ErrText '''')) = (thrown, form', errors') \<Longrightarrow>
   clearErrorsAndSubmit vals s =
     (thrown, s\<lparr> form := form', errors := errors',
                 isSubmitting := (if thrown = None then False else isSubmitting s) \<rparr>)"
  by (cases thrown) (simp_all add: clearErrorsAndSubmit_def Let_def)

lemma handleSubmit_custom_throws:
  "validateFn s = Some f \<Longrightarrow> f (form s) = Inl thrown \<Longrightarrow>
   handleSubmit s = (Some thrown, s\<lparr> isSubmitting := True, isValidating := True \<rparr>)"
  by (simp add: handleSubmit_def Let_def)

lemma handleSubmit_custom_fails:
  "validateFn s = Some f \<Longrightarrow> f (form s) = Inr (Some error) \<Longrightarrow> \<not> length (keys error) \<le> 0 \<Longrightarrow>
   handleSubmit s =
     (None, s\<lparr> errors := map (\<lambda>(key, m). (key, ErrText m)) error,
               isSubmitting := False, isValidating := False \<rparr>)"
  by (simp add: handleSubmit_def Let_def)

lemma handleSubmit_custom_passes:
  "validateFn s = Some f \<Longrightarrow> f (form s) = Inr error \<Longrightarrow>
   (case error of None \<Rightarrow> True | Some error' \<Rightarrow> length (keys error') \<le> 0) \<Longrightarrow>
   handleSubmit s =
     (case clearErrorsAndSubmit (form s) (s\<lparr> isSubmitting := True, isValidating := True \<rparr>) of
        (Some thrown, s2) \<Rightarrow> (Some thrown, s2)
      | (None, s2) \<Rightarrow> (None, s2\<lparr> isValidating := False \<rparr>))"
  by (cases error) (simp_all add: handleSubmit_def Let_def)

lemma handleSubmit_schema_fails:
  "validateFn s = None \<Longrightarrow> validationSchema s = Some schema \<Longrightarrow>
   validate schema (form s) = Some yupErrors \<Longrightarrow>
   handleSubmit s =
     (None, s\<lparr> errors := (case inner yupErrors of
                             Some violations \<Rightarrow>
                               fold (\<lambda>(path, msg) object. update object path (ErrText msg))
                                 violations (errors s)
                           | None \<Rightarrow> errors s),
               isSubmitting := False, isValidating := False \<rparr>)"
  by (cases "inner yupErrors") (simp_all add: handleSubmit_def Let_def write_violations)

lemma handleSubmit_schema_passes:
  "validateFn s = None \<Longrightarrow> validationSchema s = Some schema \<Longrightarrow>
   validate schema (form s) = None \<Longrightarrow>
   handleSubmit s =
     (case clearErrorsAndSubmit (form s) (s\<lparr> isSubmitting := True, isValidating := True \<rparr>) of
        (None, s2) \<Rightarrow> (None, s2\<lparr> isValidating := False \<rparr>)
      | (Some thrown, s2) \<Rightarrow>
          (None, s2\<lparr> errors := (case inner thrown of
                                   Some violations \<Rightarrow>
                                     fold (\<lambda>(path, msg) object. update object path (ErrText msg))
                                       violations (errors s2)
                                 | None \<Rightarrow> errors s2),
                     isSubmitting := False, isValidating := False \<rparr>))"
  by (auto simp: handleSubmit_def Let_def write_violations split: prod.splits option.splits)

lemma handleSubmit_no_validator:
  "validateFn s = None \<Longrightarrow> validationSchema s = None \<Longrightarrow>
   handleSubmit s = clearErrorsAndSubmit (form s) (s\<lparr> isSubmitting := True \<rparr>)"
  by (simp add: handleSubmit_def Let_def)

lemma clearErrorsAndSubmit_cases:
  obtains (no_callback) "onSubmit s = None"
      "clearErrorsAndSubmit vals s = (None, s\<lparr> isSubmitting := False \<rparr>)"
  | (callback) callback thrown form' errors' where "onSubmit s = Some callback"
      "callback vals (form s, assign vals (ErrText '''')) = (thrown, form', errors')"
      "clearErrorsAndSubmit vals s =
         (thrown, s\<lparr> form := form', errors := errors',
                     isSubmitting := (if thrown = None then False else isSubmitting s) \<rparr>)"
proof (cases "onSubmit s")
  case None
  then show ?thesis using no_callback clearErrorsAndSubmit_no_callback by blast
next
  case (Some callback)
  obtain thrown form' errors'
    where r: "callback vals (form s, assign vals (ErrText '''')) = (thrown, form', errors')"
    by (metis prod_cases3)
  show ?thesis using callback [OF Some r] clearErrorsAndSubmit_callback [OF Some r] by blast
qed

lemma handleSubmit_cases:
  obtains (custom_throws) f thrown where "validateFn s = Some f" "f (form s) = Inl thrown"
      "handleSubmit s = (Some thrown, s\<lparr> isSubmitting := True, isValidating := True \<rparr>)"
  | (custom_fails) f error where "validateFn s = Some f" "f (form s) = Inr (Some error)"
      "\<not> length (keys error) \<le> 0"
      "handleSubmit s =
         (None, s\<lparr> errors := map (\<lambda>(key, m). (key, ErrText m)) error,
                   isSubmitting := False, isValidating := False \<rparr>)"
  | (custom_passes) f error where "validateFn s = Some f" "f (form s) = Inr error"
      "case error of None \<Rightarrow> True | Some error' \<Rightarrow> length (keys error') \<le> 0"
      "handleSubmit s =
         (case clearErrorsAndSubmit (form s) (s\<lparr> isSubmitting := True, isValidating := True \<rparr>) of
            (Some thrown, s2) \<Rightarrow> (Some thrown, s2)
          | (None, s2) \<Rightarrow> (None, s2\<lparr> isValidating := False \<rparr>))"
  | (schema_fails) schema yupErrors where "validateFn s = None" "validationSchema s = Some schema"
      "validate schema (form s) = Some yupErrors"
      "handleSubmit s =
         (None, s\<lparr> errors := (case inner yupErrors of
                                 Some violations \<Rightarrow>
                                   fold (\<lambda>(path, msg) object. update object path (ErrText msg))
                                     violations (errors s)
                               | None \<Rightarrow> errors s),
                   isSubmitting := False, isValidating := False \<rparr>)"
  | (schema_passes) schema where "validateFn s = None" "validationSchema s = Some schema"
      "validate schema (form s) = None"
      "handleSubmit s =
         (case clearErrorsAndSubmit (form s) (s\<lparr> isSubmitting := True, isValidating := True \<rparr>) of
            (None, s2) \<Rightarrow> (None, s2\<lparr> isValidating := False \<rparr>)
          | (Some thrown, s2) \<Rightarrow>
              (None, s2\<lparr> errors := (case inner thrown of
                                       Some violations \<Rightarrow>
                                         fold (\<lambda>(path, msg) object. update object path (ErrText msg))
                                           violations (errors s2)
                                     | None \<Rightarrow> errors s2),
                         isSubmitting := False, isValidating := False \<rparr>))"
  | (no_validator) "validateFn s = None" "validationSchema s = None"
      "handleSubmit s = clearErrorsAndSubmit (form s) (s\<lparr> isSubmitting := True \<rparr>)"
proof (cases "validateFn s")
  case None
  show ?thesis
  proof (cases "validationSchema s")
    case n: None
    show ?thesis using no_validator [OF None n handleSubmit_no_validator [OF None n]] .
  next
    case (Some schema)
    show ?thesis
    proof (cases "validate schema (form s)")
      case p: None
      show ?thesis using schema_passes [OF None Some p handleSubmit_schema_passes [OF None Some p]] .
    next
      case y: (Some yupErrors)
      show ?thesis using schema_fails [OF None Some y handleSubmit_schema_fails [OF None Some y]] .
    qed
  qed
next
  case (Some f)
  show ?thesis
  proof (cases "f (form s)")
    case (Inl thrown)
    show ?thesis using custom_throws [OF Some Inl handleSubmit_custom_throws [OF Some Inl]] .
  next
    case (Inr error)
    show ?thesis
    proof (cases "case error of None \<Rightarrow> True | Some error' \<Rightarrow> length (keys error') \<le> 0")
      case True
      show ?thesis using custom_passes [OF Some Inr True handleSubmit_custom_passes [OF Some Inr True]] .
    next
      case False
      then obtain error' where e: "error = Some error'" and n: "\<not> length (keys error') \<le> 0"
        by (cases error) auto
      show ?thesis
        using custom_fails [OF Some Inr [unfolded e] n handleSubmit_custom_fails [OF Some Inr [unfolded e] n]] .
    qed
  qed
qed

section \<open>Reachable states hold objects\<close>

lemma well_formed_new: "wf_config cfg \<Longrightarrow> well_formed (Form_new cfg)"
  by (auto simp: wf_config_def well_formed_def Form_new_def Let_def getInitial_values_def
      getInitial_errors_def getInitial_touched_def is_object_assign is_object_clone is_object_Nil
      split: option.splits)

lemma well_formed_handleReset: "well_formed s \<Longrightarrow> well_formed (handleReset s)"
  by (simp add: well_formed_def handleReset_def Let_def getInitial_values_def
      getInitial_errors_def getInitial_touched_def is_object_assign is_object_clone)

lemma well_formed_updateField: "well_formed s \<Longrightarrow> well_formed (updateField field v s)"
  by (simp add: well_formed_def updateField_def is_object_update)

lemma well_formed_updateTouched: "well_formed s \<Longrightarrow> well_formed (updateTouched field v s)"
  by (simp add: well_formed_def updateTouched_def is_object_update)

lemma well_formed_updateInitialValues:
  "well_formed s \<Longrightarrow> is_object newValues \<Longrightarrow> well_formed (updateInitialValues newValues s)"
proof -
  assume wf: "well_formed s" and obj: "is_object newValues"
  have "well_formed (s\<lparr> console := out \<rparr>)" for out
    using wf by (simp add: well_formed_def)
  moreover have "well_formed (handleReset (s\<lparr> initialValues := newValues, console := out \<rparr>))" for out
    using wf obj by (intro well_formed_handleReset) (simp add: well_formed_def)
  ultimately show ?thesis
    by (simp add: updateInitialValues_def split: prod.splits)
qed

lemma well_formed_clearErrorsAndSubmit:
  assumes "well_formed s" and "is_object vals"
  shows "well_formed (snd (clearErrorsAndSubmit vals s))"
proof (rule clearErrorsAndSubmit_cases [where s = s and vals = vals])
  assume "clearErrorsAndSubmit vals s = (None, s\<lparr> isSubmitting := False \<rparr>)"
  then show ?thesis using assms(1) by (simp add: well_formed_def)
next
  fix callback thrown form' errors'
  assume cb: "onSubmit s = Some callback"
    and r: "callback vals (form s, assign vals (ErrText '''')) = (thrown, form', errors')"
    and c: "clearErrorsAndSubmit vals s =
         (thrown, s\<lparr> form := form', errors := errors',
                     isSubmitting := (if thrown = None then False else isSubmitting s) \<rparr>)"
  have "wf_onSubmit callback" "is_object (form s)"
    using assms(1) cb by (simp_all add: well_formed_def)
  then have "is_object form' \<and> is_object errors'"
    using assms(2) r is_object_assign [of vals "ErrText ''''"]
    unfolding wf_onSubmit_def by fastforce
  then show ?thesis using assms(1) by (simp add: c well_formed_def)
qed

lemma well_formed_validateFieldValue:
  "well_formed s \<Longrightarrow> well_formed (snd (validateFieldValue field v s))"
  by (auto simp: well_formed_def validateFieldValue_def updateTouched_def Let_def is_object_update
      split: option.splits sum.splits)

lemma well_formed_handleSubmit: "well_formed s \<Longrightarrow> well_formed (snd (handleSubmit s))"
proof -
  assume wf: "well_formed s"
  have flags: "well_formed (s\<lparr> isSubmitting := b, isValidating := b' \<rparr>)"
    "well_formed (s\<lparr> isSubmitting := b \<rparr>)" for b b'
    using wf by (simp_all add: well_formed_def)
  have errs: "well_formed t \<Longrightarrow> is_object object \<Longrightarrow>
    well_formed (t\<lparr> errors := object, isSubmitting := b, isValidating := b' \<rparr>)" for t object b b'
    by (simp add: well_formed_def)
  have flag: "well_formed t \<Longrightarrow> well_formed (t\<lparr> isValidating := b \<rparr>)" for t b
    by (simp add: well_formed_def)
  have obj: "is_object (form s)" using wf by (simp add: well_formed_def)
  have caught: "well_formed t \<Longrightarrow>
    is_object (case inner thrown of
                 Some violations \<Rightarrow>
                   fold (\<lambda>(path, msg) object. update object path (ErrText msg)) violations (errors t)
               | None \<Rightarrow> errors t)" for t thrown
    by (cases "inner thrown") (simp_all add: well_formed_def is_object_violations)
  show ?thesis
  proof (cases s rule: handleSubmit_cases)
    case (custom_throws f thrown)
    then show ?thesis using flags by simp
  next
    case (custom_fails f error)
    have "wf_validateFn f" "is_object (form s)"
      using wf custom_fails(1) by (simp_all add: well_formed_def)
    then have "is_object error"
      using custom_fails(2) unfolding wf_validateFn_def by fastforce
    then show ?thesis using custom_fails(4) errs [OF wf] by (simp add: is_object_errors_of)
  next
    case (custom_passes f error)
    obtain r s2 where c:
      "clearErrorsAndSubmit (form s) (s\<lparr> isSubmitting := True, isValidating := True \<rparr>) = (r, s2)"
      by (cases "clearErrorsAndSubmit (form s) (s\<lparr> isSubmitting := True, isValidating := True \<rparr>)")
    have "well_formed s2"
      using well_formed_clearErrorsAndSubmit [OF flags(1) obj] c
      by (metis snd_conv)
    then show ?thesis
      using flag by (cases r) (simp_all add: custom_passes(4) c)
  next
    case (schema_fails schema yupErrors)
    then show ?thesis using errs [OF wf caught [OF wf]] by simp
  next
    case (schema_passes schema)
    obtain r s2 where c:
      "clearErrorsAndSubmit (form s) (s\<lparr> isSubmitting := True, isValidating := True \<rparr>) = (r, s2)"
      by (cases "clearErrorsAndSubmit (form s) (s\<lparr> isSubmitting := True, isValidating := True \<rparr>)")
    have "well_formed s2"
      using well_formed_clearErrorsAndSubmit [OF flags(1) obj] c
      by (metis snd_conv)
    then show ?thesis
      using flag errs caught by (cases r) (simp_all add: schema_passes(4) c)
  next
    case no_validator
    then show ?thesis using well_formed_clearErrorsAndSubmit [OF flags(2) obj] by simp
  qed
qed

lemma well_formed_run: "well_formed s \<Longrightarrow> wf_Op op \<Longrightarrow> well_formed (snd (run op s))"
proof (cases op)
  case (HandleChange target)
  assume "well_formed s"
  then show ?thesis using HandleChange
    by (cases target)
       (simp_all add: handleChange_def Let_def updateValidateField_def
          well_formed_validateFieldValue well_formed_updateField)
next
  case (FormSet object)
  assume "well_formed s" "wf_Op op"
  then show ?thesis using FormSet by (simp add: well_formed_def)
next
  case (ErrorsSet object)
  assume "well_formed s" "wf_Op op"
  then show ?thesis using ErrorsSet by (simp add: well_formed_def)
next
  case (TouchedSet object)
  assume "well_formed s" "wf_Op op"
  then show ?thesis using TouchedSet by (simp add: well_formed_def)
qed (simp_all add: well_formed_handleReset well_formed_handleSubmit validateField_def
      updateValidateField_def well_formed_validateFieldValue well_formed_updateField
      well_formed_updateTouched well_formed_updateInitialValues)

lemma reachable_well_formed: "reachable s \<Longrightarrow> well_formed s"
  by (induction rule: reachable.induct) (simp_all add: well_formed_new well_formed_run)

lemma list_all_values:
  "distinct (keys object) \<Longrightarrow>
   list_all P (values_of object) \<longleftrightarrow> (\<forall>key v. map_of object key = Some v \<longrightarrow> P v)"
  unfolding keys_def values_of_def list_all_iff
  by (force dest: map_of_SomeD)

text \<open>The definitions that evaluate a run on a concrete instance.\<close>

lemmas evaluation =
  Object_prototype_def keys_def values_of_def get_value_def get_error_def update_def
  assign_def clone_def
  NO_ERROR_def IS_TOUCHED_def isInitialValuesValid_def getInitial_values_def
  getInitial_errors_def getInitial_touched_def Form_new_def isValid_def modified_def
  isModified_def handleReset_def updateField_def updateTouched_def updateInitialValues_def
  clearErrorsAndSubmit_def handleSubmit_def validateFieldValue_def validateField_def
  updateValidateField_def isCheckbox_def handleChange_def run_all_def Let_def

section \<open>Further facts used by the claims\<close>


subsection \<open>The violations written by a failed schema validation\<close>

lemma own_proto_update:
  "''__proto__'' \<in> set (keys (update object path v)) \<longleftrightarrow> ''__proto__'' \<in> set (keys object)"
  by (auto simp: keys_update)

lemma map_of_violations:
  "map_of (fold (\<lambda>(path, msg) object. update object path (ErrText msg)) violations object) field =
     (if field = ''__proto__'' \<and> field \<notin> set (keys object) then None
      else case map_of (rev violations) field of
             Some msg \<Rightarrow> Some (ErrText msg)
           | None \<Rightarrow> map_of object field)"
proof (induction violations arbitrary: object)
  case Nil
  then show ?case by (auto simp: keys_def map_of_eq_None_iff)
next
  case (Cons v violations)
  obtain path msg where v: "v = (path, msg)" by (cases v)
  have none: "''__proto__'' \<notin> set (keys object) \<Longrightarrow> map_of object ''__proto__'' = None"
    by (simp add: keys_def map_of_eq_None_iff)
  show ?case
    using none
    by (auto simp: v Cons.IH own_proto_update map_of_update map_of_append map_add_def
        split: option.splits)
qed


subsection \<open>Writes and handleReset\<close>

lemma write_shape:
  "is_write op \<Longrightarrow> \<exists>f e t. snd (run op s) = s\<lparr> form := f, errors := e, touched := t \<rparr>"
proof (cases op)
  case (UpdateField field v)
  show ?thesis
    by (rule exI [of _ "form (updateField field v s)"], rule exI [of _ "errors s"],
        rule exI [of _ "touched s"]) (simp add: UpdateField updateField_def)
next
  case (UpdateTouched field v)
  show ?thesis
    by (rule exI [of _ "form s"], rule exI [of _ "errors s"],
        rule exI [of _ "update (touched s) field v"]) (simp add: UpdateTouched updateTouched_def)
next
  case (ErrorsSet object)
  show ?thesis
    by (rule exI [of _ "form s"], rule exI [of _ object], rule exI [of _ "touched s"])
       (simp add: ErrorsSet)
qed simp_all

lemma writes_shape:
  "list_all is_write ops \<Longrightarrow> \<exists>f e t. run_all ops s = s\<lparr> form := f, errors := e, touched := t \<rparr>"
proof (induction ops arbitrary: s)
  case Nil
  show ?case
    by (rule exI [of _ "form s"], rule exI [of _ "errors s"], rule exI [of _ "touched s"])
       (simp add: run_all_def)
next
  case (Cons op ops)
  then have w: "is_write op" "list_all is_write ops" by simp_all
  obtain f e t where 1: "snd (run op s) = s\<lparr> form := f, errors := e, touched := t \<rparr>"
    using write_shape [OF w(1), of s] by blast
  obtain f' e' t' where 2: "run_all ops (snd (run op s)) =
      (snd (run op s))\<lparr> form := f', errors := e', touched := t' \<rparr>"
    using Cons.IH [OF w(2), of "snd (run op s)"] by blast
  have "run_all (op # ops) s = run_all ops (snd (run op s))" by (simp add: run_all_def)
  then have "run_all (op # ops) s = s\<lparr> form := f', errors := e', touched := t' \<rparr>"
    using 1 2 by simp
  then show ?case by blast
qed

lemma handleReset_after_writes:
  "handleReset (s\<lparr> form := f, errors := e, touched := t \<rparr>) = handleReset s"
  by (simp add: handleReset_def Let_def getInitial_values_def getInitial_errors_def
      getInitial_touched_def)

lemma handleReset_idem: "handleReset (handleReset s) = handleReset s"
  by (simp add: handleReset_def Let_def getInitial_values_def getInitial_errors_def
      getInitial_touched_def)

lemma handleReset_new: "handleReset (Form_new cfg) = Form_new cfg"
  by (simp add: Form_new_def handleReset_def Let_def getInitial_values_def getInitial_errors_def
      getInitial_touched_def)

lemma handleReset_updateInitialValues:
  "length (keys newValues) \<noteq> 0 \<Longrightarrow>
   handleReset (updateInitialValues newValues s) = updateInitialValues newValues s"
  by (simp add: updateInitialValues_def isInitialValuesValid_def handleReset_idem)

subsection \<open>The key sets\<close>

















subsection \<open>What single writes store, and when a submit resolves\<close>

lemma updateField_form:
  "form (updateField field v s) = (if truthy v then update (form s) field v else form s)"
  by (simp add: updateField_def)

lemma validateFieldValue_custom:
  "validationSchema s = None \<Longrightarrow> validateFn s = Some f \<Longrightarrow> f [(field, v)] = Inr errs \<Longrightarrow>
   errors (snd (validateFieldValue field v s)) =
     update (errors s) field (case errs of Some errs' \<Rightarrow> get_error errs' field
                                        | None \<Rightarrow> ErrText '''')"
  by (simp add: validateFieldValue_def updateTouched_def Let_def)

lemma handleSubmit_schema_resolves:
  "validateFn s = None \<Longrightarrow> validationSchema s = Some schema \<Longrightarrow> fst (handleSubmit s) = None"
proof (cases "validate schema (form s)")
  case None
  assume "validateFn s = None" "validationSchema s = Some schema"
  then show ?thesis
    using handleSubmit_schema_passes [OF _ _ None]
    by (cases "clearErrorsAndSubmit (form s) (s\<lparr> isSubmitting := True, isValidating := True \<rparr>)";
        cases "fst (clearErrorsAndSubmit (form s) (s\<lparr> isSubmitting := True, isValidating := True \<rparr>))")
       auto
next
  case (Some yupErrors)
  assume "validateFn s = None" "validationSchema s = Some schema"
  then show ?thesis using handleSubmit_schema_fails [OF _ _ Some] by simp
qed

lemma handleSubmit_resolves:
  assumes "\<And>f thrown. validateFn s = Some f \<Longrightarrow> f (form s) \<noteq> Inl thrown"
    and "\<And>callback. onSubmit s = Some callback \<Longrightarrow>
           fst (callback (form s) (form s, assign (form s) (ErrText ''''))) = None"
  shows "fst (handleSubmit s) = None"
proof -
  have clear: "fst (clearErrorsAndSubmit (form s) t) = None"
    if "form t = form s" "onSubmit t = onSubmit s" for t
  proof (rule clearErrorsAndSubmit_cases [where s = t and vals = "form s"])
    assume "clearErrorsAndSubmit (form s) t = (None, t\<lparr> isSubmitting := False \<rparr>)"
    then show ?thesis by simp
  next
    fix callback thrown form' errors'
    assume "onSubmit t = Some callback"
      and "callback (form s) (form t, assign (form s) (ErrText '''')) = (thrown, form', errors')"
      and c: "clearErrorsAndSubmit (form s) t =
         (thrown, t\<lparr> form := form', errors := errors',
                     isSubmitting := (if thrown = None then False else isSubmitting t) \<rparr>)"
    then have "thrown = None" using assms(2) [of callback] that by simp
    then show ?thesis using c by simp
  qed
  show ?thesis
  proof (cases s rule: handleSubmit_cases)
    case (custom_throws f thrown)
    then show ?thesis using assms(1) by blast
  next
    case (custom_fails f error)
    then show ?thesis by simp
  next
    case (custom_passes f error)
    let ?c = "clearErrorsAndSubmit (form s) (s\<lparr> isSubmitting := True, isValidating := True \<rparr>)"
    have "fst ?c = None" by (rule clear) simp_all
    then show ?thesis by (cases ?c) (simp add: custom_passes(4))
  next
    case (schema_fails schema yupErrors)
    then show ?thesis by simp
  next
    case (schema_passes schema)
    then show ?thesis using handleSubmit_schema_resolves by blast
  next
    case no_validator
    have "fst (clearErrorsAndSubmit (form s) (s\<lparr> isSubmitting := True \<rparr>)) = None"
      by (rule clear) simp_all
    then show ?thesis using no_validator(3) by simp
  qed
qed

section \<open>The claims\<close>

subsection \<open>C1: the derived store isValid\<close>

text \<open>
  C1. In every reachable state of an instance, \<^verbatim>\<open>isValid\<close> is true if and only if every
  entry of the touched object is \<^verbatim>\<open>true\<close> and every entry of the errors object is the
  empty string.
\<close>

theorem isValid_iff:
  assumes "reachable s"
  shows "isValid s \<longleftrightarrow>
    (\<forall>field b. map_of (touched s) field = Some b \<longrightarrow> b = True) \<and>
    (\<forall>field e. map_of (errors s) field = Some e \<longrightarrow> e = ErrText '''')"
proof -
  have "well_formed s" using assms by (rule reachable_well_formed)
  then have "distinct (keys (touched s))" "distinct (keys (errors s))"
    by (simp_all add: well_formed_def is_object_def)
  then show ?thesis
    by (simp add: isValid_def Let_def IS_TOUCHED_def NO_ERROR_def list_all_values)
qed

theorem isValid_iff_witness:
  "reachable (snd (run (UpdateValidateField ''email'' (Str ''a@b.c''))
      (Form_new \<lparr> config_initialValues = Some [(''email'', Str '''')],
                  config_validationSchema = None, config_validate = None,
                  config_onSubmit = Some (\<lambda>vals stores. (None, stores)) \<rparr>))) \<and>
   isValid (snd (run (UpdateValidateField ''email'' (Str ''a@b.c''))
      (Form_new \<lparr> config_initialValues = Some [(''email'', Str '''')],
                  config_validationSchema = None, config_validate = None,
                  config_onSubmit = Some (\<lambda>vals stores. (None, stores)) \<rparr>))) \<and>
   reachable (Form_new \<lparr> config_initialValues = Some [(''email'', Str '''')],
                  config_validationSchema = None, config_validate = None,
                  config_onSubmit = Some (\<lambda>vals stores. (None, stores)) \<rparr>) \<and>
   \<not> isValid (Form_new \<lparr> config_initialValues = Some [(''email'', Str '''')],
                  config_validationSchema = None, config_validate = None,
                  config_onSubmit = Some (\<lambda>vals stores. (None, stores)) \<rparr>)"
proof -
  let ?cfg = "\<lparr> config_initialValues = Some [(''email'', Str '''')],
                config_validationSchema = None, config_validate = None,
                config_onSubmit = Some (\<lambda>vals stores. (None, stores)) \<rparr>"
  let ?s = "snd (run (UpdateValidateField ''email'' (Str ''a@b.c'')) (Form_new ?cfg))"
  have r0: "reachable (Form_new ?cfg)"
    by (rule reachable.constructed)
       (simp add: wf_config_def wf_onSubmit_def is_object_def keys_def)
  have r: "reachable ?s"
    by (rule reachable.called [OF r0]) simp
  have t: "touched ?s = [(''email'', True)]" and e: "errors ?s = [(''email'', ErrText '''')]"
    by (simp_all add: evaluation)
  have t0: "touched (Form_new ?cfg) = [(''email'', False)]"
    by (simp add: evaluation)
  have "isValid ?s" using isValid_iff [OF r] unfolding t e by simp
  moreover have "\<not> isValid (Form_new ?cfg)"
  proof
    assume "isValid (Form_new ?cfg)"
    then have "\<forall>field b. map_of (touched (Form_new ?cfg)) field = Some b \<longrightarrow> b = True"
      using isValid_iff [OF r0] by blast
    then have "map_of [(''email'', False)] ''email'' = Some False \<longrightarrow> False = True"
      unfolding t0 by blast
    then show False by simp
  qed
  ultimately show ?thesis using r r0 by simp
qed

subsection \<open>C2: updateField and the value false\<close>

text \<open>
  C2 says that \<^verbatim>\<open>updateField(name, v)\<close> writes \<^verbatim>\<open>v\<close> unless \<^verbatim>\<open>v\<close> is \<^verbatim>\<open>undefined\<close> or
  the empty string, and that a deliberate \<^verbatim>\<open>false\<close> is written. The guard of the method is
  \<^verbatim>\<open>if (value)\<close>, which is false for \<^verbatim>\<open>false\<close> too. The code at that input: a field that
  holds \<^verbatim>\<open>true\<close> keeps it when \<^verbatim>\<open>false\<close> is written, and a checkbox that was checked and
  is unchecked again through \<^verbatim>\<open>handleChange\<close> stays \<^verbatim>\<open>true\<close> in the values.
\<close>

theorem updateField_skips_false:
  "form (updateField ''terms'' (Bool False)
     (Form_new \<lparr> config_initialValues = Some [(''terms'', Bool True)],
        config_validationSchema = None, config_validate = None, config_onSubmit = None \<rparr>)) =
     [(''terms'', Bool True)] \<and>
   form (snd (handleChange
     (Some \<lparr> el_name = ''terms'', el_id = '''', el_type = Some ''checkbox'', el_value = ''on'',
             el_checked = False \<rparr>)
     (snd (handleChange
       (Some \<lparr> el_name = ''terms'', el_id = '''', el_type = Some ''checkbox'', el_value = ''on'',
               el_checked = True \<rparr>)
       (Form_new \<lparr> config_initialValues = Some [(''terms'', Bool False)],
          config_validationSchema = None, config_validate = None,
          config_onSubmit = None \<rparr>))))) =
     [(''terms'', Bool True)]"
  by (simp add: evaluation)

subsection \<open>C3: which validator runs when both are configured\<close>

text \<open>
  C3 says that with both a custom function and a schema configured every validation path,
  whole-form in \<^verbatim>\<open>handleSubmit\<close> and single-field in \<^verbatim>\<open>validateField\<close> and
  \<^verbatim>\<open>updateValidateField\<close>, runs the custom function and never the schema.
  \<^verbatim>\<open>handleSubmit\<close> tests \<^verbatim>\<open>this.validateFn\<close> first and does so; \<^verbatim>\<open>validateFieldValue\<close>
  tests \<^verbatim>\<open>this.validationSchema\<close> first and does not. The code at such an instance, with a
  schema that accepts the form and rejects the field and a custom function that reports
  the field with another message: \<^verbatim>\<open>handleSubmit\<close> stores the custom function's message,
  \<^verbatim>\<open>validateField\<close> stores the schema's, and the custom function's message is what
  \<^verbatim>\<open>validateField\<close> stores on the instance configured without the schema.
\<close>

theorem single_field_validation_uses_schema:
  "validateFn (Form_new \<lparr> config_initialValues = Some [(''email'', Str ''x'')],
       config_validationSchema =
         Some \<lparr> validate = (\<lambda>vals. None),
                validateAt = (\<lambda>field vals. Some (Thrown ''email must be a valid email'' None)) \<rparr>,
       config_validate = Some (\<lambda>vals. Inr (Some [(''email'', ''this email is invalid'')])),
       config_onSubmit = None \<rparr>) \<noteq> None \<and>
   validationSchema (Form_new \<lparr> config_initialValues = Some [(''email'', Str ''x'')],
       config_validationSchema =
         Some \<lparr> validate = (\<lambda>vals. None),
                validateAt = (\<lambda>field vals. Some (Thrown ''email must be a valid email'' None)) \<rparr>,
       config_validate = Some (\<lambda>vals. Inr (Some [(''email'', ''this email is invalid'')])),
       config_onSubmit = None \<rparr>) \<noteq> None \<and>
   errors (snd (handleSubmit
     (Form_new \<lparr> config_initialValues = Some [(''email'', Str ''x'')],
       config_validationSchema =
         Some \<lparr> validate = (\<lambda>vals. None),
                validateAt = (\<lambda>field vals. Some (Thrown ''email must be a valid email'' None)) \<rparr>,
       config_validate = Some (\<lambda>vals. Inr (Some [(''email'', ''this email is invalid'')])),
       config_onSubmit = None \<rparr>))) =
     [(''email'', ErrText ''this email is invalid'')] \<and>
   errors (snd (validateField ''email''
     (Form_new \<lparr> config_initialValues = Some [(''email'', Str ''x'')],
       config_validationSchema =
         Some \<lparr> validate = (\<lambda>vals. None),
                validateAt = (\<lambda>field vals. Some (Thrown ''email must be a valid email'' None)) \<rparr>,
       config_validate = Some (\<lambda>vals. Inr (Some [(''email'', ''this email is invalid'')])),
       config_onSubmit = None \<rparr>))) =
     [(''email'', ErrText ''email must be a valid email'')] \<and>
   errors (snd (updateValidateField ''email'' (Str ''y'')
     (Form_new \<lparr> config_initialValues = Some [(''email'', Str ''x'')],
       config_validationSchema =
         Some \<lparr> validate = (\<lambda>vals. None),
                validateAt = (\<lambda>field vals. Some (Thrown ''email must be a valid email'' None)) \<rparr>,
       config_validate = Some (\<lambda>vals. Inr (Some [(''email'', ''this email is invalid'')])),
       config_onSubmit = None \<rparr>))) =
     [(''email'', ErrText ''email must be a valid email'')] \<and>
   errors (snd (validateField ''email''
     (Form_new \<lparr> config_initialValues = Some [(''email'', Str ''x'')],
       config_validationSchema = None,
       config_validate = Some (\<lambda>vals. Inr (Some [(''email'', ''this email is invalid'')])),
       config_onSubmit = None \<rparr>))) =
     [(''email'', ErrText ''this email is invalid'')]"
  by (simp add: evaluation)

subsection \<open>C4: the keys of errors, touched and modified\<close>




text \<open>
  The side conditions are needed: \<^verbatim>\<open>updateTouched\<close> on a name that is not a field adds
  the key; an initial value \<^verbatim>\<open>undefined\<close> is dropped by \<^verbatim>\<open>clone\<close>, so that the values
  and modified lack its key; a schema violation on a field with no initial value (the
  test suite's \<^verbatim>\<open>what\<close>, required when \<^verbatim>\<open>wantsSomething\<close> is true) adds its key to
  errors; and an initial key \<^verbatim>\<open>__proto__\<close> is not copied by \<^verbatim>\<open>assign\<close>, so that errors and
  touched lack it.
\<close>

lemma keys_change_otherwise:
  "keys (touched (updateTouched ''zip'' True
     (Form_new \<lparr> config_initialValues = Some [(''name'', Str ''Ada'')],
        config_validationSchema = None, config_validate = None, config_onSubmit = None \<rparr>))) =
     [''name'', ''zip''] \<and>
   keys (modified (Form_new \<lparr> config_initialValues = Some [(''what'', Undefined)],
        config_validationSchema = None, config_validate = None, config_onSubmit = None \<rparr>)) = [] \<and>
   keys (errors (snd (handleSubmit
     (Form_new \<lparr> config_initialValues = Some [(''wantsSomething'', Bool True)],
        config_validationSchema =
          Some \<lparr> validate = (\<lambda>vals. Some (Thrown ''what is a required field''
                     (Some [(''what'', ''what is a required field'')]))),
                 validateAt = (\<lambda>field vals. None) \<rparr>,
        config_validate = None, config_onSubmit = None \<rparr>)))) = [''wantsSomething'', ''what''] \<and>
   keys (form (Form_new \<lparr> config_initialValues = Some [(''__proto__'', Str ''x'')],
        config_validationSchema = None, config_validate = None, config_onSubmit = None \<rparr>)) =
     [''__proto__''] \<and>
   keys (errors (Form_new \<lparr> config_initialValues = Some [(''__proto__'', Str ''x'')],
        config_validationSchema = None, config_validate = None, config_onSubmit = None \<rparr>)) = []"
  by (simp add: evaluation)

subsection \<open>C5: a custom validator that does not mention the field\<close>

text \<open>
  C5 says that single-field validation with a custom function stores the empty string
  when the returned map has no key for the field. The method stores \<^verbatim>\<open>errs[field]\<close>
  whenever \<^verbatim>\<open>errs\<close> is not null, which is \<^verbatim>\<open>undefined\<close> for a missing key. The code at
  that input, with the validator of the test suite (an error for \<^verbatim>\<open>invalid.email\<close>, the
  empty object otherwise): after the field is corrected its entry is \<^verbatim>\<open>undefined\<close>, not
  the empty string, and the form is not valid.
\<close>

theorem validateFieldValue_stores_undefined:
  "errors (snd (updateValidateField ''email'' (Str ''good@x.com'')
     (snd (updateValidateField ''email'' (Str ''invalid.email'')
       (Form_new \<lparr> config_initialValues = Some [(''email'', Str '''')],
          config_validationSchema = None,
          config_validate = Some (\<lambda>vals. Inr (Some
            (if get_value vals ''email'' = Str ''invalid.email''
             then [(''email'', ''this email is invalid'')] else []))),
          config_onSubmit = None \<rparr>))))) =
     [(''email'', ErrUndefined)] \<and>
   errors (snd (updateValidateField ''email'' (Str ''invalid.email'')
       (Form_new \<lparr> config_initialValues = Some [(''email'', Str '''')],
          config_validationSchema = None,
          config_validate = Some (\<lambda>vals. Inr (Some
            (if get_value vals ''email'' = Str ''invalid.email''
             then [(''email'', ''this email is invalid'')] else []))),
          config_onSubmit = None \<rparr>))) =
     [(''email'', ErrText ''this email is invalid'')] \<and>
   \<not> isValid (snd (updateValidateField ''email'' (Str ''good@x.com'')
     (snd (updateValidateField ''email'' (Str ''invalid.email'')
       (Form_new \<lparr> config_initialValues = Some [(''email'', Str '''')],
          config_validationSchema = None,
          config_validate = Some (\<lambda>vals. Inr (Some
            (if get_value vals ''email'' = Str ''invalid.email''
             then [(''email'', ''this email is invalid'')] else []))),
          config_onSubmit = None \<rparr>)))))"
  by (simp add: evaluation)

subsection \<open>C6: handleReset\<close>

text \<open>
  C6. \<^verbatim>\<open>handleReset\<close> is idempotent, and after any sequence of \<^verbatim>\<open>updateField\<close>,
  \<^verbatim>\<open>updateTouched\<close> and writes of the errors store it restores the instance, and so its
  values, errors and touched objects, to exactly what they were right after construction,
  or right after the most recent accepted \<^verbatim>\<open>updateInitialValues\<close>.
\<close>

theorem handleReset_restores:
  "handleReset (handleReset s) = handleReset s \<and>
   (list_all is_write ops \<longrightarrow>
      handleReset (run_all ops (Form_new cfg)) = Form_new cfg) \<and>
   (list_all is_write ops \<and> length (keys newValues) \<noteq> 0 \<longrightarrow>
      handleReset (run_all ops (updateInitialValues newValues s)) =
        updateInitialValues newValues s)"
proof (intro conjI impI)
  show "handleReset (handleReset s) = handleReset s" by (rule handleReset_idem)
next
  assume "list_all is_write ops"
  then obtain f e t where "run_all ops (Form_new cfg) =
      (Form_new cfg)\<lparr> form := f, errors := e, touched := t \<rparr>"
    using writes_shape by blast
  then show "handleReset (run_all ops (Form_new cfg)) = Form_new cfg"
    by (simp add: handleReset_after_writes handleReset_new)
next
  assume a: "list_all is_write ops \<and> length (keys newValues) \<noteq> 0"
  then obtain f e t where "run_all ops (updateInitialValues newValues s) =
      (updateInitialValues newValues s)\<lparr> form := f, errors := e, touched := t \<rparr>"
    using writes_shape by blast
  then show "handleReset (run_all ops (updateInitialValues newValues s)) =
      updateInitialValues newValues s"
    using a by (simp add: handleReset_after_writes handleReset_updateInitialValues)
qed

theorem handleReset_restores_witness:
  "list_all is_write [UpdateField ''name'' (Str ''foo''), UpdateTouched ''name'' True,
      ErrorsSet [(''name'', ErrText ''name is required'')]] \<and>
   form (run_all [UpdateField ''name'' (Str ''foo''), UpdateTouched ''name'' True,
      ErrorsSet [(''name'', ErrText ''name is required'')]]
      (Form_new \<lparr> config_initialValues = Some [(''name'', Str ''Ada'')],
         config_validationSchema = None, config_validate = None, config_onSubmit = None \<rparr>)) =
     [(''name'', Str ''foo'')] \<and>
   form (handleReset (run_all [UpdateField ''name'' (Str ''foo''), UpdateTouched ''name'' True,
      ErrorsSet [(''name'', ErrText ''name is required'')]]
      (Form_new \<lparr> config_initialValues = Some [(''name'', Str ''Ada'')],
         config_validationSchema = None, config_validate = None, config_onSubmit = None \<rparr>))) =
     [(''name'', Str ''Ada'')] \<and>
   errors (handleReset (run_all [UpdateField ''name'' (Str ''foo''), UpdateTouched ''name'' True,
      ErrorsSet [(''name'', ErrText ''name is required'')]]
      (Form_new \<lparr> config_initialValues = Some [(''name'', Str ''Ada'')],
         config_validationSchema = None, config_validate = None, config_onSubmit = None \<rparr>))) =
     [(''name'', ErrText '''')] \<and>
   touched (handleReset (run_all [UpdateField ''name'' (Str ''foo''), UpdateTouched ''name'' True,
      ErrorsSet [(''name'', ErrText ''name is required'')]]
      (Form_new \<lparr> config_initialValues = Some [(''name'', Str ''Ada'')],
         config_validationSchema = None, config_validate = None, config_onSubmit = None \<rparr>))) =
     [(''name'', False)] \<and>
   form (handleReset (run_all [UpdateField ''name'' (Str ''foo''), UpdateTouched ''name'' True,
      ErrorsSet [(''name'', ErrText ''name is required'')]]
      (updateInitialValues [(''city'', Str ''Paris'')]
        (Form_new \<lparr> config_initialValues = Some [(''name'', Str ''Ada'')],
           config_validationSchema = None, config_validate = None,
           config_onSubmit = None \<rparr>)))) =
     [(''city'', Str ''Paris'')]"
proof -
  let ?ops = "[UpdateField ''name'' (Str ''foo''), UpdateTouched ''name'' True,
      ErrorsSet [(''name'', ErrText ''name is required'')]]"
  let ?cfg = "\<lparr> config_initialValues = Some [(''name'', Str ''Ada'')],
         config_validationSchema = None, config_validate = None, config_onSubmit = None \<rparr>"
  let ?new = "[(''city'', Str ''Paris'')]"
  have w: "list_all is_write ?ops" by simp
  have n: "length (keys ?new) \<noteq> 0" by (simp add: keys_def)
  have 1: "handleReset (run_all ?ops (Form_new ?cfg)) = Form_new ?cfg"
    using handleReset_restores [of "Form_new ?cfg" ?ops ?cfg ?new] w by blast
  have 2: "handleReset (run_all ?ops (updateInitialValues ?new (Form_new ?cfg))) =
      updateInitialValues ?new (Form_new ?cfg)"
    using handleReset_restores [of "Form_new ?cfg" ?ops ?cfg ?new] w n by blast
  have 3: "form (run_all ?ops (Form_new ?cfg)) = [(''name'', Str ''foo'')]"
    by (simp add: evaluation)
  have 4: "form (Form_new ?cfg) = [(''name'', Str ''Ada'')]"
    "errors (Form_new ?cfg) = [(''name'', ErrText '''')]"
    "touched (Form_new ?cfg) = [(''name'', False)]"
    "form (updateInitialValues ?new (Form_new ?cfg)) = [(''city'', Str ''Paris'')]"
    by (simp_all add: evaluation)
  show ?thesis unfolding 1 2 using w 3 4 by simp
qed

subsection \<open>C7: isSubmitting after a submit\<close>

text \<open>
  C7. For every configuration and every starting state, when the promise of
  \<^verbatim>\<open>handleSubmit\<close> resolves, \<^verbatim>\<open>isSubmitting\<close> is false: after the callback was
  invoked, after validation failed, and with no validator alike.
\<close>

theorem handleSubmit_clears_isSubmitting:
  assumes "fst (handleSubmit s) = None"
  shows "\<not> isSubmitting (snd (handleSubmit s))"
proof -
  have clear: "fst (clearErrorsAndSubmit vals t) = None \<Longrightarrow>
      \<not> isSubmitting (snd (clearErrorsAndSubmit vals t))" for vals t
    by (rule clearErrorsAndSubmit_cases [where s = t and vals = vals]) auto
  show ?thesis
  proof (cases s rule: handleSubmit_cases)
    case (custom_throws f thrown)
    then show ?thesis using assms by simp
  next
    case (custom_fails f error)
    then show ?thesis by simp
  next
    case (custom_passes f error)
    let ?c = "clearErrorsAndSubmit (form s) (s\<lparr> isSubmitting := True, isValidating := True \<rparr>)"
    show ?thesis
      using assms clear [of "form s" "s\<lparr> isSubmitting := True, isValidating := True \<rparr>"]
      by (cases ?c; cases "fst ?c") (auto simp: custom_passes(4))
  next
    case (schema_fails schema yupErrors)
    then show ?thesis by simp
  next
    case (schema_passes schema)
    let ?c = "clearErrorsAndSubmit (form s) (s\<lparr> isSubmitting := True, isValidating := True \<rparr>)"
    show ?thesis
      using clear [of "form s" "s\<lparr> isSubmitting := True, isValidating := True \<rparr>"]
      by (cases ?c; cases "fst ?c") (auto simp: schema_passes(4))
  next
    case no_validator
    then show ?thesis using assms clear by simp
  qed
qed

theorem handleSubmit_clears_isSubmitting_witness:
  "fst (handleSubmit (Form_new \<lparr> config_initialValues = Some [(''name'', Str ''Ada'')],
       config_validationSchema = None, config_validate = Some (\<lambda>vals. Inr None),
       config_onSubmit = Some (\<lambda>vals stores. (None, stores)) \<rparr>)) = None \<and>
   \<not> isSubmitting (snd (handleSubmit (Form_new
     \<lparr> config_initialValues = Some [(''name'', Str ''Ada'')],
       config_validationSchema = None, config_validate = Some (\<lambda>vals. Inr None),
       config_onSubmit = Some (\<lambda>vals stores. (None, stores)) \<rparr>))) \<and>
   fst (handleSubmit (Form_new \<lparr> config_initialValues = Some [(''name'', Str '''')],
       config_validationSchema =
         Some \<lparr> validate = (\<lambda>vals. Some (Thrown ''name is a required field''
                    (Some [(''name'', ''name is a required field'')]))),
                validateAt = (\<lambda>field vals. None) \<rparr>,
       config_validate = None,
       config_onSubmit = Some (\<lambda>vals stores. (None, stores)) \<rparr>)) = None \<and>
   \<not> isSubmitting (snd (handleSubmit (Form_new
     \<lparr> config_initialValues = Some [(''name'', Str '''')],
       config_validationSchema =
         Some \<lparr> validate = (\<lambda>vals. Some (Thrown ''name is a required field''
                    (Some [(''name'', ''name is a required field'')]))),
                validateAt = (\<lambda>field vals. None) \<rparr>,
       config_validate = None,
       config_onSubmit = Some (\<lambda>vals stores. (None, stores)) \<rparr>))) \<and>
   fst (handleSubmit (Form_new \<lparr> config_initialValues = Some [(''name'', Str ''Ada'')],
       config_validationSchema = None, config_validate = None,
       config_onSubmit = None \<rparr>)) = None \<and>
   \<not> isSubmitting (snd (handleSubmit (Form_new
     \<lparr> config_initialValues = Some [(''name'', Str ''Ada'')],
       config_validationSchema = None, config_validate = None,
       config_onSubmit = None \<rparr>)))"
proof -
  let ?passes = "Form_new \<lparr> config_initialValues = Some [(''name'', Str ''Ada'')],
       config_validationSchema = None, config_validate = Some (\<lambda>vals. Inr None),
       config_onSubmit = Some (\<lambda>vals stores. (None, stores)) \<rparr>"
  let ?fails = "Form_new \<lparr> config_initialValues = Some [(''name'', Str '''')],
       config_validationSchema =
         Some \<lparr> validate = (\<lambda>vals. Some (Thrown ''name is a required field''
                    (Some [(''name'', ''name is a required field'')]))),
                validateAt = (\<lambda>field vals. None) \<rparr>,
       config_validate = None,
       config_onSubmit = Some (\<lambda>vals stores. (None, stores)) \<rparr>"
  let ?plain = "Form_new \<lparr> config_initialValues = Some [(''name'', Str ''Ada'')],
       config_validationSchema = None, config_validate = None,
       config_onSubmit = None \<rparr>"
  have a: "fst (handleSubmit ?passes) = None" by (simp add: evaluation)
  have b: "fst (handleSubmit ?fails) = None" by (simp add: evaluation)
  have c: "fst (handleSubmit ?plain) = None" by (simp add: evaluation)
  show ?thesis
    using a b c handleSubmit_clears_isSubmitting [OF a] handleSubmit_clears_isSubmitting [OF b]
      handleSubmit_clears_isSubmitting [OF c]
    by blast
qed

subsection \<open>C8: a failed whole-form schema validation\<close>

text \<open>
  C8. When the schema's whole-form validation in \<^verbatim>\<open>handleSubmit\<close> fails with a list of
  violations, the errors object changes only at the field names the violations name;
  every other field keeps the error it had. A named field gets the message of its last
  violation; only a violation at the path \<^verbatim>\<open>__proto__\<close> writes nothing when the errors
  object does not own that key.
\<close>

theorem schema_failure_frame:
  assumes "validateFn s = None" and "validationSchema s = Some schema"
    and "validate schema (form s) = Some yupErrors"
    and "inner yupErrors = Some violations"
  shows "fst (handleSubmit s) = None \<and>
    (\<forall>field. field \<notin> set (map fst violations) \<longrightarrow>
       map_of (errors (snd (handleSubmit s))) field = map_of (errors s) field) \<and>
    (\<forall>field msg. map_of (rev violations) field = Some msg \<and>
         (field = ''__proto__'' \<longrightarrow> field \<in> set (keys (errors s))) \<longrightarrow>
       map_of (errors (snd (handleSubmit s))) field = Some (ErrText msg)) \<and>
    (''__proto__'' \<notin> set (keys (errors s)) \<longrightarrow>
       map_of (errors (snd (handleSubmit s))) ''__proto__'' = map_of (errors s) ''__proto__'')"
proof -
  have none: "map_of (rev violations) field = None" if "field \<notin> set (map fst violations)"
    for field
    using that by (simp add: map_of_eq_None_iff)
  have own: "map_of (errors s) ''__proto__'' = None" if "''__proto__'' \<notin> set (keys (errors s))"
    using that by (simp add: keys_def map_of_eq_None_iff)
  have e: "errors (snd (handleSubmit s)) =
      fold (\<lambda>(path, msg) object. update object path (ErrText msg)) violations (errors s)"
    and r: "fst (handleSubmit s) = None"
    by (simp_all add: handleSubmit_schema_fails [OF assms(1-3)] assms(4))
  show ?thesis
    unfolding e map_of_violations using r none own by auto
qed

theorem schema_failure_frame_witness:
  "map_of (errors (snd (handleSubmit (snd (run
      (ErrorsSet [(''name'', ErrText ''''), (''email'', ErrText ''email must be a valid email'')])
      (Form_new \<lparr> config_initialValues = Some [(''name'', Str ''''), (''email'', Str ''a@b.c'')],
         config_validationSchema =
           Some \<lparr> validate = (\<lambda>vals. Some (Thrown ''name is a required field''
                      (Some [(''name'', ''name is a required field'')]))),
                  validateAt = (\<lambda>field vals. None) \<rparr>,
         config_validate = None, config_onSubmit = None \<rparr>)))))) ''email'' =
     Some (ErrText ''email must be a valid email'') \<and>
   map_of (errors (snd (handleSubmit (snd (run
      (ErrorsSet [(''name'', ErrText ''''), (''email'', ErrText ''email must be a valid email'')])
      (Form_new \<lparr> config_initialValues = Some [(''name'', Str ''''), (''email'', Str ''a@b.c'')],
         config_validationSchema =
           Some \<lparr> validate = (\<lambda>vals. Some (Thrown ''name is a required field''
                      (Some [(''name'', ''name is a required field'')]))),
                  validateAt = (\<lambda>field vals. None) \<rparr>,
         config_validate = None, config_onSubmit = None \<rparr>)))))) ''name'' =
     Some (ErrText ''name is a required field'')"
proof -
  let ?schema = "\<lparr> validate = (\<lambda>vals. Some (Thrown ''name is a required field''
                      (Some [(''name'', ''name is a required field'')]))),
                  validateAt = (\<lambda>field vals. None) \<rparr>"
  let ?s = "snd (run
      (ErrorsSet [(''name'', ErrText ''''), (''email'', ErrText ''email must be a valid email'')])
      (Form_new \<lparr> config_initialValues = Some [(''name'', Str ''''), (''email'', Str ''a@b.c'')],
         config_validationSchema = Some ?schema,
         config_validate = None, config_onSubmit = None \<rparr>))"
  have a: "validateFn ?s = None" by (simp add: evaluation)
  have b: "validationSchema ?s = Some ?schema" by (simp add: evaluation)
  have c: "validate ?schema (form ?s) =
      Some (Thrown ''name is a required field'' (Some [(''name'', ''name is a required field'')]))"
    by simp
  have d: "inner (Thrown ''name is a required field'' (Some [(''name'', ''name is a required field'')]))
      = Some [(''name'', ''name is a required field'')]"
    by simp
  have e: "map_of (errors ?s) ''email'' = Some (ErrText ''email must be a valid email'')"
    by (simp add: evaluation)
  have "map_of (errors (snd (handleSubmit ?s))) ''email'' = map_of (errors ?s) ''email''"
    using schema_failure_frame [OF a b c d] by simp
  moreover have "map_of (errors (snd (handleSubmit ?s))) ''name'' =
      Some (ErrText ''name is a required field'')"
    using schema_failure_frame [OF a b c d] by simp
  ultimately show ?thesis using e by simp
qed

subsection \<open>C9: a submit with no callback\<close>

text \<open>
  C9. When no \<^verbatim>\<open>onSubmit\<close> callback is configured and whole-form validation passes (or
  no validator is configured), \<^verbatim>\<open>handleSubmit\<close> resolves, leaves the errors object as it
  was (it is not cleared to empty strings) and sets \<^verbatim>\<open>isSubmitting\<close> back to false.
\<close>

theorem handleSubmit_without_callback:
  assumes "onSubmit s = None" and "validation_passes s"
  shows "fst (handleSubmit s) = None \<and> errors (snd (handleSubmit s)) = errors s \<and>
         \<not> isSubmitting (snd (handleSubmit s))"
proof -
  have clear: "clearErrorsAndSubmit vals (s\<lparr> isSubmitting := b, isValidating := b' \<rparr>) =
      (None, s\<lparr> isSubmitting := False, isValidating := b' \<rparr>)"
    "clearErrorsAndSubmit vals (s\<lparr> isSubmitting := b \<rparr>) = (None, s\<lparr> isSubmitting := False \<rparr>)"
    for vals b b'
    using assms(1) by (simp_all add: clearErrorsAndSubmit_def)
  show ?thesis
  proof (cases s rule: handleSubmit_cases)
    case (custom_throws f thrown)
    then show ?thesis using assms(2) by (simp add: validation_passes_def)
  next
    case (custom_fails f error)
    then show ?thesis using assms(2) by (simp add: validation_passes_def)
  next
    case (custom_passes f error)
    then show ?thesis by (simp add: clear)
  next
    case (schema_fails schema yupErrors)
    then show ?thesis using assms(2) by (simp add: validation_passes_def)
  next
    case (schema_passes schema)
    then show ?thesis by (simp add: clear)
  next
    case no_validator
    then show ?thesis by (simp add: clear)
  qed
qed

theorem handleSubmit_without_callback_witness:
  "onSubmit (snd (run (ErrorsSet [(''name'', ErrText ''name is required'')])
      (Form_new \<lparr> config_initialValues = Some [(''name'', Str ''Ada'')],
         config_validationSchema = Some \<lparr> validate = (\<lambda>vals. None),
                                            validateAt = (\<lambda>field vals. None) \<rparr>,
         config_validate = None, config_onSubmit = None \<rparr>))) = None \<and>
   validation_passes (snd (run (ErrorsSet [(''name'', ErrText ''name is required'')])
      (Form_new \<lparr> config_initialValues = Some [(''name'', Str ''Ada'')],
         config_validationSchema = Some \<lparr> validate = (\<lambda>vals. None),
                                            validateAt = (\<lambda>field vals. None) \<rparr>,
         config_validate = None, config_onSubmit = None \<rparr>))) \<and>
   errors (snd (handleSubmit (snd (run (ErrorsSet [(''name'', ErrText ''name is required'')])
      (Form_new \<lparr> config_initialValues = Some [(''name'', Str ''Ada'')],
         config_validationSchema = Some \<lparr> validate = (\<lambda>vals. None),
                                            validateAt = (\<lambda>field vals. None) \<rparr>,
         config_validate = None, config_onSubmit = None \<rparr>))))) =
     [(''name'', ErrText ''name is required'')] \<and>
   \<not> isSubmitting (snd (handleSubmit (snd (run (ErrorsSet [(''name'', ErrText ''name is required'')])
      (Form_new \<lparr> config_initialValues = Some [(''name'', Str ''Ada'')],
         config_validationSchema = Some \<lparr> validate = (\<lambda>vals. None),
                                            validateAt = (\<lambda>field vals. None) \<rparr>,
         config_validate = None, config_onSubmit = None \<rparr>)))))"
proof -
  let ?s = "snd (run (ErrorsSet [(''name'', ErrText ''name is required'')])
      (Form_new \<lparr> config_initialValues = Some [(''name'', Str ''Ada'')],
         config_validationSchema = Some \<lparr> validate = (\<lambda>vals. None),
                                            validateAt = (\<lambda>field vals. None) \<rparr>,
         config_validate = None, config_onSubmit = None \<rparr>))"
  have a: "onSubmit ?s = None" by (simp add: evaluation)
  have b: "validation_passes ?s" by (simp add: validation_passes_def evaluation)
  have e: "errors ?s = [(''name'', ErrText ''name is required'')]" by (simp add: evaluation)
  show ?thesis using a b e handleSubmit_without_callback [OF a b] by simp
qed

subsection \<open>C10: construction with no initial values\<close>




end
